theory Spec2Isabelle
  imports Complex_Main
begin

section \<open>Wavelength calibration: data model\<close>

text \<open>
  The development follows \<open>pyreduce/wavelength_calibration.py\<close> (class
  \<open>WavelengthCalibration\<close>) and the helpers of \<open>pyreduce/util.py\<close> it calls.
  Floating-point numbers are read as real numbers, numpy integers as unbounded integers.
  A record array of lines is a list of \<open>line\<close> records, mutated in place in the
  source and passed and returned explicitly here. An exception of the source is the
  \<open>Inl\<close> branch of a sum.
\<close>

datatype error = ValueError | TypeError | IndexError | MaskError | LinAlgError | ZeroDivisionError

record line =
  wll :: real
  posm :: real
  posc :: real
  order :: int
  xfirst :: int
  xlast :: int
  width :: real
  height :: real
  flag :: bool

section \<open>Alignment offset\<close>

text \<open>
  \<^verbatim>\<open>
  lines["xfirst"][select] += offset[1]
  lines["xlast"][select] += offset[1]
  lines["posm"][select] += offset[1]
  lines["order"][select] += offset[0]
  \<close>
  The offset is a pair (order shift, pixel shift) of integers.
\<close>

definition shift_line :: "int \<times> int \<Rightarrow> line \<Rightarrow> line" where
  "shift_line offset l =
     l\<lparr>xfirst := xfirst l + snd offset,
       xlast := xlast l + snd offset,
       posm := posm l + real_of_int (snd offset),
       order := order l + fst offset\<rparr>"

text \<open>
  \<open>select\<close> is \<open>None\<close> (the source's \<open>slice(None)\<close>: every line) or a boolean
  mask; numpy refuses a boolean mask whose length is not the array's with an IndexError,
  at the first indexed update, before any field is written.
\<close>

definition apply_alignment_offset ::
  "line list \<Rightarrow> int \<times> int \<Rightarrow> bool list option \<Rightarrow> error + line list" where
  "apply_alignment_offset lines offset select =
     (case select of
        None \<Rightarrow> Inr (map (shift_line offset) lines)
      | Some m \<Rightarrow>
          if length m \<noteq> length lines then Inl IndexError
          else Inr (map (\<lambda>(l, s). if s then shift_line offset l else l) (zip lines m)))"

definition selected :: "bool list option \<Rightarrow> nat \<Rightarrow> bool" where
  "selected select i = (case select of None \<Rightarrow> True | Some m \<Rightarrow> m ! i)"


text \<open>
  The effect the specification describes, written from its words: the order shift on
  \<open>order\<close>, the pixel shift on \<open>posm\<close>, \<open>posc\<close>, \<open>xfirst\<close> and \<open>xlast\<close>.
\<close>

definition described_shift_line :: "int \<times> int \<Rightarrow> line \<Rightarrow> line" where
  "described_shift_line offset l =
     l\<lparr>xfirst := xfirst l + snd offset,
       xlast := xlast l + snd offset,
       posm := posm l + real_of_int (snd offset),
       posc := posc l + real_of_int (snd offset),
       order := order l + fst offset\<rparr>"

definition example_line :: line where
  "example_line =
     \<lparr>wll = 5000, posm = 10, posc = 10, order = 2, xfirst = 8, xlast = 12,
      width = 1, height = 1, flag = True\<rparr>"

section \<open>Configuration and numerical library\<close>

text \<open>
  \<open>mode\<close> and \<open>degree\<close> of the source go together (the constructor stores an integer
  degree for "1D" and a pair for "2D", and the setter of \<open>mode\<close> refuses every other
  string), so they are one value here. The development covers the configuration without
  detector steps (\<open>nstep = 0\<close>, the default) and without plotting or manual alignment
  (\<open>plot\<close> and \<open>manual\<close> false). Degrees are natural numbers.
\<close>

datatype fit_mode = OneD nat | TwoD nat nat

record config =
  threshold :: real
  mode :: fit_mode
  shift_window :: real
  nord :: nat
  ncol :: nat

definition speed_of_light :: real where
  "speed_of_light = 299792458"

text \<open>
  The routines of numpy and scipy the engine calls are parameters: each field is the
  value the routine returns on arguments it accepts. What a routine refuses, and what the
  source's own arithmetic makes non-finite before the call, is written out where the
  routine is called.
  \<^item> \<open>polyfit x y deg\<close>: \<open>np.polyfit\<close>, coefficients with the highest power first;
  \<^item> \<open>lstsq A b\<close>: the solution returned by \<open>scipy.linalg.lstsq\<close>;
  \<^item> \<open>least_squares x y p0 lower upper\<close>: the optimum \<open>res.x\<close> of
    \<open>scipy.optimize.least_squares\<close> for the Gaussian model of \<open>gaussfit2\<close>, or the
    exception it raises;
  \<^item> \<open>find_peaks v h\<close>: the peak indices of \<open>scipy.signal.find_peaks\<close> with
    \<open>height = h\<close>;
  \<^item> \<open>correlate2d\<close>: \<open>scipy.signal.correlate2d\<close> with \<open>mode="same"\<close>;
  \<^item> \<open>correlate\<close>: \<open>scipy.signal.correlate\<close> with \<open>mode="same"\<close>;
  \<^item> \<open>gaussian n std\<close>: \<open>scipy.signal.gaussian\<close>, a window of \<open>n\<close> points.
\<close>

record numlib =
  polyfit :: "real list \<Rightarrow> real list \<Rightarrow> nat \<Rightarrow> real list"
  lstsq :: "real list list \<Rightarrow> real list \<Rightarrow> real list"
  least_squares ::
    "real list \<Rightarrow> real list \<Rightarrow> real list \<Rightarrow> real list \<Rightarrow> real list \<Rightarrow> error + real list"
  find_peaks :: "(real \<times> bool) list \<Rightarrow> real \<Rightarrow> nat list"
  correlate2d :: "real list list \<Rightarrow> real list list \<Rightarrow> real list list"
  correlate :: "real list \<Rightarrow> real list \<Rightarrow> real list"
  gaussian :: "nat \<Rightarrow> real \<Rightarrow> real list"

section \<open>Arrays\<close>

text \<open>Indexing with an integer as Python and numpy do: a negative index counts from the end.\<close>

definition py_index :: "'a list \<Rightarrow> int \<Rightarrow> error + 'a" where
  "py_index xs i =
     (if 0 \<le> i \<and> i < int (length xs) then Inr (xs ! nat i)
      else if i < 0 \<and> - int (length xs) \<le> i then Inr (xs ! nat (i + int (length xs)))
      else Inl IndexError)"

text \<open>The first exception of a sequence of computations, or all their results.\<close>

fun all_right :: "(error + 'a) list \<Rightarrow> error + 'a list" where
  "all_right [] = Inr []"
| "all_right (Inl e # rs) = Inl e"
| "all_right (Inr v # rs) = (case all_right rs of Inl e \<Rightarrow> Inl e | Inr vs \<Rightarrow> Inr (v # vs))"

text \<open>
  A masked array is a list of pairs (value, mask), the mask true where the entry is
  invalid, as in \<open>numpy.ma\<close>. \<open>np.ma.argmax\<close> fills the masked entries with the least
  value of the type and returns the first index of the greatest entry; on an empty array
  it raises ValueError.
\<close>

fun filled_less :: "real \<times> bool \<Rightarrow> real \<times> bool \<Rightarrow> bool" where
  "filled_less (a, ma) (b, mb) = (if mb then False else if ma then True else a < b)"

fun argmax_from :: "nat \<Rightarrow> real \<times> bool \<Rightarrow> nat \<Rightarrow> (real \<times> bool) list \<Rightarrow> nat" where
  "argmax_from best bv i [] = best"
| "argmax_from best bv i (v # vs) =
     (if filled_less bv v then argmax_from i v (Suc i) vs else argmax_from best bv (Suc i) vs)"

definition ma_argmax :: "(real \<times> bool) list \<Rightarrow> error + nat" where
  "ma_argmax vs = (case vs of [] \<Rightarrow> Inl ValueError | v # rest \<Rightarrow> Inr (argmax_from 0 v 1 rest))"

definition ma_abs :: "(real \<times> bool) list \<Rightarrow> (real \<times> bool) list" where
  "ma_abs vs = map (\<lambda>(v, m). (\<bar>v\<bar>, m)) vs"

text \<open>\<open>np.ma.any(a > t)\<close>: some entry that is not masked exceeds \<open>t\<close>.\<close>

definition ma_any_gt :: "(real \<times> bool) list \<Rightarrow> real \<Rightarrow> bool" where
  "ma_any_gt vs t = list_ex (\<lambda>(v, m). \<not> m \<and> v > t) vs"

definition list_max :: "'a::linorder list \<Rightarrow> 'a" where
  "list_max xs = foldl max (hd xs) (tl xs)"

section \<open>Solution builder\<close>

text \<open>
  \<open>np.polyfit\<close> raises TypeError on an empty \<open>x\<close>. It divides every column of the
  Vandermonde matrix by its norm, so when every \<open>x\<close> is zero and the degree is positive
  a column is 0/0 and the solver refuses the matrix (LinAlgError). With fewer points than
  coefficients it warns (RankWarning) and returns.
\<close>

definition np_polyfit :: "numlib \<Rightarrow> real list \<Rightarrow> real list \<Rightarrow> nat \<Rightarrow> error + real list" where
  "np_polyfit L x y deg =
     (if x = [] then Inl TypeError
      else if 0 < deg \<and> list_all (\<lambda>v. v = 0) x then Inl LinAlgError
      else Inr (polyfit L x y deg))"

text \<open>
  \<open>util.polyfit2d\<close> with a pair of degrees, \<open>max_degree=None\<close> and \<open>scale=True\<close>:
  \<^verbatim>\<open>
  idx = [[i, j] for i, j in product(range(degree[0] + 1), range(degree[1] + 1))]
  norm_x = np.max(x).astype(float); norm_y = np.max(y).astype(float)
  x = x / norm_x; y = y / norm_y
  A = np.array([np.power(x, i) * np.power(y, j) for i, j in idx], dtype=float).T
  C, *_ = lstsq(A, z.ravel())
  for k, (i, j) in enumerate(idx):
      coeff[i, j] = C[k] / (norm_x ** i * norm_y ** j)
  \<close>
  \<open>np.max\<close> of an empty array raises ValueError. A zero \<open>norm_x\<close> (or \<open>norm_y\<close>)
  makes \<open>x / norm_x\<close> infinite or NaN; its power 0 is 1, every other power is not
  finite, and \<open>scipy.linalg.lstsq\<close> refuses a matrix with such an entry (ValueError).
\<close>

definition design_row :: "nat \<Rightarrow> nat \<Rightarrow> real \<Rightarrow> real \<Rightarrow> real list" where
  "design_row dx dy x y = concat (map (\<lambda>i. map (\<lambda>j. x ^ i * y ^ j) [0..<Suc dy]) [0..<Suc dx])"

definition scaled_design :: "nat \<Rightarrow> nat \<Rightarrow> real list \<Rightarrow> real list \<Rightarrow> real list list" where
  "scaled_design dx dy x y =
     map (\<lambda>(xv, yv). design_row dx dy (xv / list_max x) (yv / list_max y)) (zip x y)"

definition polyfit2d ::
  "numlib \<Rightarrow> real list \<Rightarrow> real list \<Rightarrow> real list \<Rightarrow> nat \<Rightarrow> nat \<Rightarrow> error + real list list" where
  "polyfit2d L x y z dx dy =
     (if x = [] \<or> y = [] then Inl ValueError
      else if length x \<noteq> length y then Inl ValueError
      else
        let norm_x = list_max x; norm_y = list_max y in
        if (norm_x = 0 \<and> 0 < dx) \<or> (norm_y = 0 \<and> 0 < dy) then Inl ValueError
        else
          let C = lstsq L (scaled_design dx dy x y) z
          in if length C < Suc dx * Suc dy then Inl IndexError
             else Inr (map (\<lambda>i. map (\<lambda>j. C ! (i * Suc dy + j) / (norm_x ^ i * norm_y ^ j))
                                  [0..<Suc dy]) [0..<Suc dx]))"

text \<open>
  \<open>build_2d_solution\<close>, on the flagged lines only:
  \<^verbatim>\<open>
  if self.mode == "1D":
      nord = m_ord.max() + 1
      coef = np.zeros((nord, self.degree + 1))
      for i in range(nord):
          select = m_ord == i
          coef[i] = np.polyfit(m_pix[select], m_wave[select], deg=self.degree)
  elif self.mode == "2D":
      coef = util.polyfit2d(m_pix, m_ord, m_wave, degree=self.degree, plot=False)
  \<close>
  \<open>m_ord.max()\<close> raises ValueError when no line is flagged, and \<open>np.zeros\<close> when the
  greatest order is below -1.
\<close>

fun fit_orders :: "numlib \<Rightarrow> nat \<Rightarrow> line list \<Rightarrow> nat list \<Rightarrow> error + real list list" where
  "fit_orders L deg used [] = Inr []"
| "fit_orders L deg used (i # rest) =
     (let sel = filter (\<lambda>l. order l = int i) used in
      case np_polyfit L (map posm sel) (map wll sel) deg of
        Inl e \<Rightarrow> Inl e
      | Inr c \<Rightarrow> (case fit_orders L deg used rest of Inl e \<Rightarrow> Inl e | Inr cs \<Rightarrow> Inr (c # cs)))"

definition build_2d_solution :: "numlib \<Rightarrow> config \<Rightarrow> line list \<Rightarrow> error + real list list" where
  "build_2d_solution L cfg lines =
     (let used = filter flag lines in
      case mode cfg of
        OneD deg \<Rightarrow>
          if used = [] then Inl ValueError
          else let n = list_max (map order used) + 1 in
            if n < 0 then Inl ValueError else fit_orders L deg used [0..<nat n]
      | TwoD dx dy \<Rightarrow>
          polyfit2d L (map posm used) (map (\<lambda>l. real_of_int (order l)) used) (map wll used) dx dy)"

section \<open>Evaluating a solution\<close>

text \<open>
  \<open>np.polyval\<close> (highest power first) and \<open>polyval2d\<close> (\<open>c[i, j]\<close> the coefficient of
  \<open>x**i * y**j\<close>). In 1D mode the row of the solution is taken with the line's order as
  a numpy index.
\<close>

definition polyval :: "real list \<Rightarrow> real \<Rightarrow> real" where
  "polyval p x = foldl (\<lambda>acc c. acc * x + c) 0 p"

definition polyval2d :: "real \<Rightarrow> real \<Rightarrow> real list list \<Rightarrow> real" where
  "polyval2d x y c =
     sum_list (map (\<lambda>(i, row). x ^ i * sum_list (map (\<lambda>(j, v). v * y ^ j) (enumerate 0 row)))
                   (enumerate 0 c))"

definition evaluate_at :: "config \<Rightarrow> real list list \<Rightarrow> real \<Rightarrow> int \<Rightarrow> error + real" where
  "evaluate_at cfg solution pos ord =
     (case mode cfg of
        OneD deg \<Rightarrow> (case py_index solution ord of Inl e \<Rightarrow> Inl e | Inr p \<Rightarrow> Inr (polyval p pos))
      | TwoD dx dy \<Rightarrow> Inr (polyval2d pos (real_of_int ord) solution))"

definition evaluate_solution ::
  "config \<Rightarrow> real list \<Rightarrow> int list \<Rightarrow> real list list \<Rightarrow> error + real list" where
  "evaluate_solution cfg pos ord solution =
     (if length pos \<noteq> length ord then Inl ValueError
      else all_right (map (\<lambda>(x, y). evaluate_at cfg solution x y) (zip pos ord)))"

section \<open>Residuals and outlier rejection\<close>

text \<open>
  \<^verbatim>\<open>
  solution = self.evaluate_solution(lines["posm"], lines["order"], wave_solution)
  residual = (solution - lines["wll"]) / lines["wll"] * speed_of_light
  residual = np.ma.masked_array(residual, mask=~lines["flag"])
  \<close>
  For a catalogue wavelength of 0 the floating-point quotient is an infinity or NaN,
  which the reals do not represent; the bound on the residuals is stated for lines with
  a non-zero wavelength.
\<close>

definition velocity_residual :: "real \<Rightarrow> real \<Rightarrow> real" where
  "velocity_residual w catalogue = (w - catalogue) / catalogue * speed_of_light"

definition calculate_residual ::
  "config \<Rightarrow> real list list \<Rightarrow> line list \<Rightarrow> error + (real \<times> bool) list" where
  "calculate_residual cfg wave_solution lines =
     (case evaluate_solution cfg (map posm lines) (map order lines) wave_solution of
        Inl e \<Rightarrow> Inl e
      | Inr solution \<Rightarrow>
          Inr (map (\<lambda>(w, l). (velocity_residual w (wll l), \<not> flag l)) (zip solution lines)))"

text \<open>
  \<^verbatim>\<open>
  ibad = np.ma.argmax(np.abs(residual))
  lines["flag"][ibad] = False
  \<close>
  An index past the end of \<open>lines\<close> (a residual array longer than the line list) is
  an IndexError.
\<close>

definition reject_outlier :: "(real \<times> bool) list \<Rightarrow> line list \<Rightarrow> error + line list" where
  "reject_outlier residual lines =
     (case ma_argmax (ma_abs residual) of
        Inl e \<Rightarrow> Inl e
      | Inr ibad \<Rightarrow>
          if ibad < length lines then Inr (lines[ibad := (lines ! ibad)\<lparr>flag := False\<rparr>])
          else Inl IndexError)"

definition count_flagged :: "line list \<Rightarrow> nat" where
  "count_flagged lines = length (filter flag lines)"

text \<open>The mask of a residual array is the complement of the flags of the lines.\<close>

definition masks_flags :: "(real \<times> bool) list \<Rightarrow> line list \<Rightarrow> bool" where
  "masks_flags residual lines = (map snd residual = map (\<lambda>l. \<not> flag l) lines)"

subsection \<open>Facts the loop's termination rests on\<close>

lemma all_right_length: "all_right rs = Inr vs \<Longrightarrow> length vs = length rs"
proof (induction rs arbitrary: vs)
  case Nil
  then show ?case by simp
next
  case (Cons r rs)
  then show ?case by (cases r) (auto split: sum.splits)
qed

lemma all_right_nth: "all_right rs = Inr vs \<Longrightarrow> i < length rs \<Longrightarrow> rs ! i = Inr (vs ! i)"
proof (induction rs arbitrary: vs i)
  case Nil
  then show ?case by simp
next
  case (Cons r rs)
  then show ?case by (cases r; cases i) (auto split: sum.splits)
qed

lemma filled_less_trans: "filled_less a b \<Longrightarrow> \<not> filled_less c b \<Longrightarrow> filled_less a c"
  by (cases a; cases b; cases c) (auto split: if_splits)

lemma argmax_from_spec:
  "best < i \<Longrightarrow>
   (argmax_from best bv i vs = best \<and> (\<forall>v \<in> set vs. \<not> filled_less bv v)) \<or>
   (i \<le> argmax_from best bv i vs \<and> argmax_from best bv i vs < i + length vs \<and>
    filled_less bv (vs ! (argmax_from best bv i vs - i)) \<and>
    (\<forall>v \<in> set vs. \<not> filled_less (vs ! (argmax_from best bv i vs - i)) v))"
proof (induction vs arbitrary: best bv i)
  case Nil
  then show ?case by simp
next
  case (Cons v vs)
  show ?case
  proof (cases "filled_less bv v")
    case True
    have "i < Suc i" by simp
    from Cons.IH [OF this, of v]
    show ?thesis
    proof
      assume a: "argmax_from i v (Suc i) vs = i \<and> (\<forall>w \<in> set vs. \<not> filled_less v w)"
      have "\<not> filled_less v v" by (cases v) auto
      with a True show ?thesis by auto
    next
      assume a: "Suc i \<le> argmax_from i v (Suc i) vs \<and> argmax_from i v (Suc i) vs < Suc i + length vs \<and>
        filled_less v (vs ! (argmax_from i v (Suc i) vs - Suc i)) \<and>
        (\<forall>w \<in> set vs. \<not> filled_less (vs ! (argmax_from i v (Suc i) vs - Suc i)) w)"
      let ?r = "argmax_from i v (Suc i) vs"
      let ?c = "vs ! (?r - Suc i)"
      have idx: "(v # vs) ! (?r - i) = ?c" using a by (simp add: Suc_diff_le)
      have 1: "filled_less bv ?c"
        using True a by (cases bv; cases v; cases ?c) (auto split: if_splits)
      have 2: "\<not> filled_less ?c v"
        using a by (cases v; cases ?c) (auto split: if_splits)
      show ?thesis using True a idx 1 2 by auto
    qed
  next
    case False
    have "best < Suc i" using Cons.prems by simp
    from Cons.IH [OF this, of bv]
    show ?thesis
    proof
      assume a: "argmax_from best bv (Suc i) vs = best \<and> (\<forall>w \<in> set vs. \<not> filled_less bv w)"
      with False show ?thesis by auto
    next
      assume a: "Suc i \<le> argmax_from best bv (Suc i) vs \<and> argmax_from best bv (Suc i) vs < Suc i + length vs \<and>
        filled_less bv (vs ! (argmax_from best bv (Suc i) vs - Suc i)) \<and>
        (\<forall>w \<in> set vs. \<not> filled_less (vs ! (argmax_from best bv (Suc i) vs - Suc i)) w)"
      let ?r = "argmax_from best bv (Suc i) vs"
      let ?c = "vs ! (?r - Suc i)"
      have idx: "(v # vs) ! (?r - i) = ?c" using a by (simp add: Suc_diff_le)
      have 2: "\<not> filled_less ?c v"
        using a False by (cases v; cases ?c; cases bv) (auto split: if_splits)
      show ?thesis using False a idx 2 by auto
    qed
  qed
qed

lemma ma_argmax_spec:
  assumes "ma_argmax vs = Inr k"
  shows "k < length vs \<and> (\<forall>v \<in> set vs. \<not> filled_less (vs ! k) v)"
proof (cases vs)
  case Nil
  with assms show ?thesis by (simp add: ma_argmax_def)
next
  case (Cons v rest)
  with assms have k: "k = argmax_from 0 v 1 rest" by (simp add: ma_argmax_def)
  have "(0::nat) < 1" by simp
  from argmax_from_spec [OF this, of v rest]
  show ?thesis
  proof
    assume "argmax_from 0 v 1 rest = 0 \<and> (\<forall>w \<in> set rest. \<not> filled_less v w)"
    moreover have "\<not> filled_less v v" by (cases v) auto
    ultimately show ?thesis using k Cons by auto
  next
    assume a: "1 \<le> argmax_from 0 v 1 rest \<and> argmax_from 0 v 1 rest < 1 + length rest \<and>
      filled_less v (rest ! (argmax_from 0 v 1 rest - 1)) \<and>
      (\<forall>w \<in> set rest. \<not> filled_less (rest ! (argmax_from 0 v 1 rest - 1)) w)"
    then have "\<not> filled_less (rest ! (k - 1)) v"
      using k by (cases v; cases "rest ! (k - 1)") (auto split: if_splits)
    moreover have "vs ! k = rest ! (k - 1)" using a k Cons by (cases k) auto
    ultimately show ?thesis using a k Cons by auto
  qed
qed


lemma count_flagged_update:
  "i < length lines \<Longrightarrow>
   count_flagged (lines[i := (lines ! i)\<lparr>flag := False\<rparr>]) + (if flag (lines ! i) then 1 else 0)
     = count_flagged lines"
proof (induction lines arbitrary: i)
  case Nil
  then show ?case by simp
next
  case (Cons l ls)
  show ?case
  proof (cases i)
    case 0
    then show ?thesis by (simp add: count_flagged_def)
  next
    case (Suc j)
    with Cons.prems have "j < length ls" by simp
    from Cons.IH [OF this] show ?thesis
      using Suc by (simp add: count_flagged_def)
  qed
qed

lemma ma_any_gt_unmasked:
  "ma_any_gt (ma_abs residual) t \<Longrightarrow> \<exists>v \<in> set (ma_abs residual). \<not> snd v"
proof -
  assume "ma_any_gt (ma_abs residual) t"
  then obtain p where p: "p \<in> set (ma_abs residual)" "case p of (v, m) \<Rightarrow> \<not> m \<and> v > t"
    unfolding ma_any_gt_def list_ex_iff by blast
  from p(2) have "\<not> snd p" by (simp add: case_prod_unfold)
  with p(1) show ?thesis by blast
qed

lemma ma_argmax_unmasked:
  assumes "ma_argmax vs = Inr k" and "\<exists>v \<in> set vs. \<not> snd v"
  shows "\<not> snd (vs ! k)"
proof -
  from assms(2) obtain v where v: "v \<in> set vs" "\<not> snd v" by blast
  from ma_argmax_spec [OF assms(1)] v have "\<not> filled_less (vs ! k) v" by blast
  with v(2) show ?thesis by (cases v; cases "vs ! k") (auto split: if_splits)
qed

lemma ma_argmax_total: "vs \<noteq> [] \<Longrightarrow> \<exists>k. ma_argmax vs = Inr k"
  by (cases vs) (auto simp: ma_argmax_def)

lemma reject_outlier_step:
  assumes cond: "ma_any_gt (ma_abs residual) t" and mf: "masks_flags residual lines"
  shows "\<exists>ibad < length lines. flag (lines ! ibad) \<and>
           ma_argmax (ma_abs residual) = Inr ibad \<and>
           reject_outlier residual lines = Inr (lines[ibad := (lines ! ibad)\<lparr>flag := False\<rparr>])"
proof -
  from ma_any_gt_unmasked [OF cond] have ex: "\<exists>v \<in> set (ma_abs residual). \<not> snd v" .
  then have "ma_abs residual \<noteq> []" by auto
  from ma_argmax_total [OF this] obtain k where k: "ma_argmax (ma_abs residual) = Inr k" by blast
  from ma_argmax_spec [OF k] have klen: "k < length residual" by (simp add: ma_abs_def)
  from mf have len: "length residual = length lines"
    unfolding masks_flags_def by (metis length_map)
  from ma_argmax_unmasked [OF k ex] klen have "\<not> snd (residual ! k)"
    by (simp add: ma_abs_def split: prod.splits)
  moreover from mf klen len have "snd (residual ! k) = (\<not> flag (lines ! k))"
    unfolding masks_flags_def by (metis nth_map)
  ultimately have "flag (lines ! k)" by simp
  then show ?thesis using k klen len by (auto simp: reject_outlier_def)
qed

lemma reject_outlier_count_le:
  assumes "reject_outlier residual lines = Inr lines'"
  shows "count_flagged lines' \<le> count_flagged lines"
proof -
  from assms obtain k where k: "k < length lines" "lines' = lines[k := (lines ! k)\<lparr>flag := False\<rparr>]"
    by (auto simp: reject_outlier_def split: sum.splits if_splits)
  from count_flagged_update [OF k(1)] k(2) show ?thesis by (simp split: if_splits)
qed

lemma reject_outlier_count_less:
  assumes "ma_any_gt (ma_abs residual) t" and "masks_flags residual lines"
    and "reject_outlier residual lines = Inr lines'"
  shows "count_flagged lines' < count_flagged lines"
proof -
  from reject_outlier_step [OF assms(1,2)] assms(3)
  obtain k where k: "k < length lines" "flag (lines ! k)"
      "lines' = lines[k := (lines ! k)\<lparr>flag := False\<rparr>]" by auto
  from count_flagged_update [OF k(1)] k(2,3) show ?thesis by simp
qed

lemma evaluate_solution_length:
  "evaluate_solution cfg pos ord solution = Inr ws \<Longrightarrow> length ws = length pos \<and> length pos = length ord"
  by (auto simp: evaluate_solution_def split: if_splits dest: all_right_length)

lemma calculate_residual_masks:
  assumes "calculate_residual cfg sol lines = Inr residual"
  shows "masks_flags residual lines"
proof -
  from assms obtain ws where ws: "evaluate_solution cfg (map posm lines) (map order lines) sol = Inr ws"
      and r: "residual = map (\<lambda>(w, l). (velocity_residual w (wll l), \<not> flag l)) (zip ws lines)"
    by (auto simp: calculate_residual_def split: sum.splits)
  from evaluate_solution_length [OF ws] have len: "length ws = length lines" by simp
  have "map snd residual = map (\<lambda>l. \<not> flag l) (map snd (zip ws lines))"
    unfolding r by (simp add: case_prod_unfold comp_def)
  then show ?thesis using len by (simp add: masks_flags_def)
qed

subsection \<open>The rejection loop\<close>

text \<open>
  \<^verbatim>\<open>
  wave_solution = self.build_2d_solution(lines)
  residual = self.calculate_residual(wave_solution, lines)
  nbad = 0
  while np.ma.any(np.abs(residual) > self.threshold):
      lines = self.reject_outlier(residual, lines)
      wave_solution = self.build_2d_solution(lines)
      residual = self.calculate_residual(wave_solution, lines)
      nbad += 1
  \<close>
  The state of the loop is \<open>residual\<close>, \<open>lines\<close> and \<open>nbad\<close>. The result is the
  counter \<open>nbad\<close> (the number of passes, which the source logs) with either the
  exception that ended the run or the returned lines.
\<close>

function reject_loop ::
  "numlib \<Rightarrow> config \<Rightarrow> (real \<times> bool) list \<Rightarrow> line list \<Rightarrow> nat \<Rightarrow> nat \<times> (error + line list)" where
  "reject_loop L cfg residual lines nbad =
     (if ma_any_gt (ma_abs residual) (threshold cfg) then
        (case reject_outlier residual lines of
           Inl e \<Rightarrow> (nbad, Inl e)
         | Inr lines' \<Rightarrow>
             (case build_2d_solution L cfg lines' of
                Inl e \<Rightarrow> (nbad, Inl e)
              | Inr wave_solution \<Rightarrow>
                  (case calculate_residual cfg wave_solution lines' of
                     Inl e \<Rightarrow> (nbad, Inl e)
                   | Inr residual' \<Rightarrow> reject_loop L cfg residual' lines' (nbad + 1))))
      else (nbad, Inr lines))"
  by pat_completeness auto
termination
proof (relation "measure (\<lambda>(L, cfg, residual, lines, nbad).
          2 * count_flagged lines + (if masks_flags residual lines then 0 else 1))", goal_cases)
  case 1
  show ?case by simp
next
  case (2 L cfg residual lines nbad lines' wave_solution residual')
  have new: "masks_flags residual' lines'"
    using 2(4) by (rule calculate_residual_masks)
  show ?case
  proof (cases "masks_flags residual lines")
    case True
    from reject_outlier_count_less [OF 2(1) True 2(2)] new show ?thesis by simp
  next
    case False
    from reject_outlier_count_le [OF 2(2)] new False show ?thesis by simp
  qed
qed

declare reject_loop.simps [simp del]

definition reject_lines :: "numlib \<Rightarrow> config \<Rightarrow> line list \<Rightarrow> nat \<times> (error + line list)" where
  "reject_lines L cfg lines =
     (case build_2d_solution L cfg lines of
        Inl e \<Rightarrow> (0, Inl e)
      | Inr wave_solution \<Rightarrow>
          (case calculate_residual cfg wave_solution lines of
             Inl e \<Rightarrow> (0, Inl e)
           | Inr residual \<Rightarrow> reject_loop L cfg residual lines 0))"

definition converged :: "numlib \<Rightarrow> config \<Rightarrow> line list \<Rightarrow> bool" where
  "converged L cfg lines =
     (case build_2d_solution L cfg lines of
        Inl e \<Rightarrow> False
      | Inr wave_solution \<Rightarrow>
          (case calculate_residual cfg wave_solution lines of
             Inl e \<Rightarrow> False
           | Inr residual \<Rightarrow> \<not> ma_any_gt (ma_abs residual) (threshold cfg)))"

subsection \<open>A library instance and inputs to run the definitions on\<close>

text \<open>
  A library to run the definitions on. At degree 0 the least-squares polynomial is the
  mean of the data: this is what \<open>np.polyfit\<close> returns for \<open>deg = 0\<close> and \<open>lstsq\<close>
  for a matrix with the single column of ones; the runs use degree 0 only. The peak
  finder returns the indices whose value is greater than both neighbours and at least
  the height. The optimiser refuses, as \<open>scipy.optimize.least_squares\<close> does, bounds
  that are not strictly ordered and a start outside the bounds (ValueError), and
  otherwise returns the start. The correlations are those of an observation without
  signal (zero everywhere), and the Gaussian window that of at most one point
  (\<open>np.ones\<close>).
\<close>

definition local_maxima :: "(real \<times> bool) list \<Rightarrow> real \<Rightarrow> nat list" where
  "local_maxima v h =
     filter (\<lambda>i. fst (v ! (i - 1)) < fst (v ! i) \<and> fst (v ! (i + 1)) < fst (v ! i) \<and> h \<le> fst (v ! i))
       [1..<length v - 1]"

definition bounded_start ::
  "real list \<Rightarrow> real list \<Rightarrow> real list \<Rightarrow> real list \<Rightarrow> real list \<Rightarrow> error + real list" where
  "bounded_start x y p0 lower upper =
     (if list_all (\<lambda>(a, b). a < b) (zip lower upper)
         \<and> list_all (\<lambda>(a, p). a \<le> p) (zip lower p0)
         \<and> list_all (\<lambda>(p, b). p \<le> b) (zip p0 upper)
      then Inr p0 else Inl ValueError)"

definition mean_lib :: numlib where
  "mean_lib =
     \<lparr>polyfit = (\<lambda>x y deg. [sum_list y / real (length y)]),
      lstsq = (\<lambda>A b. [sum_list b / real (length b)]),
      least_squares = bounded_start,
      find_peaks = local_maxima,
      correlate2d = (\<lambda>a b. map (map (\<lambda>v. 0)) a),
      correlate = (\<lambda>a b. map (\<lambda>v. 0) a),
      gaussian = (\<lambda>n std. replicate n 1)\<rparr>"

definition cfg0 :: config where
  "cfg0 = \<lparr>threshold = 1, mode = OneD 0, shift_window = 0, nord = 1, ncol = 4\<rparr>"

definition mk_line :: "real \<Rightarrow> real \<Rightarrow> bool \<Rightarrow> line" where
  "mk_line w p f = \<lparr>wll = w, posm = p, posc = p, order = 0, xfirst = 0, xlast = 1,
      width = 1, height = 1, flag = f\<rparr>"

definition three_lines :: "line list" where
  "three_lines = [mk_line 100 1 True, mk_line 100 2 True, mk_line 400 3 True]"

definition one_left :: "line list" where
  "one_left = [mk_line 100 1 False, mk_line 100 2 False, mk_line 400 3 True]"

subsection \<open>Views of the flagged lines\<close>






section \<open>Model scoring\<close>





section \<open>Frequency comb: mode counting\<close>

text \<open>
  \<open>np.median\<close>: the middle of the sorted values, the mean of the two middle ones for
  an even number; NaN (here \<open>None\<close>) for no value at all. A comparison with NaN is
  false.
\<close>

definition median :: "real list \<Rightarrow> real option" where
  "median xs =
     (let s = sort xs; n = length s in
      if n = 0 then None
      else if odd n then Some (s ! (n div 2))
      else Some ((s ! (n div 2 - 1) + s ! (n div 2)) / 2))"

text \<open>\<open>np.diff\<close>, \<open>np.where(cond)[0]\<close> and the update \<open>n[k:] += d\<close>.\<close>

definition np_diff :: "int list \<Rightarrow> int list" where
  "np_diff xs = map (\<lambda>(a, b). b - a) (zip xs (tl xs))"

definition np_where :: "('a \<Rightarrow> bool) \<Rightarrow> 'a list \<Rightarrow> nat list" where
  "np_where P xs = filter (\<lambda>i. P (xs ! i)) [0..<length xs]"

definition add_from :: "nat \<Rightarrow> int \<Rightarrow> int list \<Rightarrow> int list" where
  "add_from k d n = map (\<lambda>(i, v). if k \<le> i then v + d else v) (enumerate 0 n)"

definition exceeds :: "real \<Rightarrow> real option \<Rightarrow> int \<Rightarrow> bool" where
  "exceeds f med d = (case med of None \<Rightarrow> False | Some m \<Rightarrow> real_of_int d > f * m)"

definition falls_below :: "real \<Rightarrow> real option \<Rightarrow> int \<Rightarrow> bool" where
  "falls_below f med d = (case med of None \<Rightarrow> False | Some m \<Rightarrow> real_of_int d < f * m)"

text \<open>
  The counting of \<open>_find_peaks\<close>, on the peak positions of its second detection:
  \<^verbatim>\<open>
  n = np.arange(len(peaks))
  diff = np.diff(peaks)
  idx = np.where(diff > 1.5 * np.median(diff))[0]
  for j in idx:
      n[j + 1 :] += 1
  idx = np.where(diff < 0.5 * np.median(diff))[0]
  for j in idx:
      n[j + 1 :] -= 1
  \<close>
\<close>

definition mode_index :: "int list \<Rightarrow> int list" where
  "mode_index peaks =
     (let n = map int [0..<length peaks];
          diff = np_diff peaks;
          med = median (map real_of_int diff);
          idx = np_where (exceeds 1.5 med) diff;
          n = foldl (\<lambda>n j. add_from (j + 1) 1 n) n idx;
          idx = np_where (falls_below 0.5 med) diff;
          n = foldl (\<lambda>n j. add_from (j + 1) (- 1) n) n idx
      in n)"

text \<open>The gap after peak \<open>j\<close> and the median gap, to state the counting.\<close>

definition gap :: "int list \<Rightarrow> nat \<Rightarrow> int" where
  "gap peaks j = peaks ! (j + 1) - peaks ! j"

definition median_gap :: "int list \<Rightarrow> real option" where
  "median_gap peaks = median (map real_of_int (np_diff peaks))"

text \<open>Peaks 10 px apart, with one peak missing (a gap of 21 px) and one doubled (a gap of 4 px).\<close>

definition comb_peaks :: "int list" where
  "comb_peaks = [0, 10, 20, 30, 51, 61, 71, 75, 81, 91, 101]"

section \<open>Automatic identification\<close>

text \<open>
  \<open>int(x)\<close> of a float truncates towards zero. A slice \<open>xs[lo:hi]\<close> counts a negative
  bound from the end and clips both bounds to the array.
\<close>

definition py_int :: "real \<Rightarrow> int" where
  "py_int r = (if 0 \<le> r then \<lfloor>r\<rfloor> else \<lceil>r\<rceil>)"

definition py_slice :: "'a list \<Rightarrow> int \<Rightarrow> int \<Rightarrow> 'a list" where
  "py_slice xs lo hi =
     (let n = int (length xs);
          a = (if lo < 0 then max (lo + n) 0 else min lo n);
          b = (if hi < 0 then max (hi + n) 0 else min hi n)
      in take (nat (b - a)) (drop (nat a) xs))"















section \<open>Feature localization\<close>

text \<open>
  \<open>np.ma.compressed\<close> (the entries that are not masked), \<open>np.linspace\<close>,
  \<open>np.argmax\<close> (the first index of the greatest value; where the array can be
  empty the caller raises ValueError first), the least value and the mean.
\<close>

definition compressed :: "(real \<times> bool) list \<Rightarrow> real list" where
  "compressed v = map fst (filter (\<lambda>e. \<not> snd e) v)"

definition linspace :: "real \<Rightarrow> real \<Rightarrow> nat \<Rightarrow> real list" where
  "linspace a b num =
     (if num = 1 then [a] else map (\<lambda>k. a + real k * (b - a) / real (num - 1)) [0..<num])"

definition np_argmax :: "real list \<Rightarrow> nat" where
  "np_argmax vs = (case vs of [] \<Rightarrow> 0 | v # rest \<Rightarrow> argmax_from 0 (v, False) 1 (map (\<lambda>w. (w, False)) rest))"

definition list_min :: "'a::linorder list \<Rightarrow> 'a" where
  "list_min xs = foldl min (hd xs) (tl xs)"

definition mean :: "real list \<Rightarrow> real" where
  "mean xs = sum_list xs / real (length xs)"

text \<open>
  \<open>util.gaussfit2\<close>:
  \<^verbatim>\<open>
  x = np.ma.compressed(x); y = np.ma.compressed(y)
  if len(x) == 0 or len(y) == 0: raise ValueError("All values masked")
  if len(x) != len(y): raise ValueError("The masks of x and y are different")
  weights = np.ones(len(y), dtype=y.dtype)
  midpoint = len(y) // 2
  weights[:midpoint] = np.linspace(0, 1, midpoint, dtype=weights.dtype)
  weights[midpoint:] = np.linspace(1, 0, len(y) - midpoint, dtype=weights.dtype)
  i = np.argmax(y * weights)
  p0 = [y[i], x[i], 1]
  res = least_squares(lambda c: gauss(x, *c, np.ma.min(y)) - y, p0, loss="soft_l1",
      bounds=([min(np.ma.mean(y), y[i]), np.ma.min(x), 0],
              [np.ma.max(y) * 1.5, np.ma.max(x), len(x) / 2]))
  popt = list(res.x) + [np.min(y)]
  \<close>
\<close>

definition gaussfit2 :: "numlib \<Rightarrow> (real \<times> bool) list \<Rightarrow> (real \<times> bool) list \<Rightarrow> error + real list" where
  "gaussfit2 L xm ym =
     (let x = compressed xm; y = compressed ym in
      if x = [] \<or> y = [] then Inl ValueError
      else if length x \<noteq> length y then Inl ValueError
      else
        let midpoint = length y div 2;
            weights = linspace 0 1 midpoint @ linspace 1 0 (length y - midpoint);
            i = np_argmax (map (\<lambda>(v, w). v * w) (zip y weights));
            p0 = [y ! i, x ! i, 1];
            lower = [min (mean y) (y ! i), list_min x, 0];
            upper = [list_max y * 1.5, list_max x, real (length x) / 2]
        in case least_squares L x y p0 lower upper of
             Inl e \<Rightarrow> Inl e
           | Inr res \<Rightarrow> Inr (res @ [list_min y]))"

text \<open>
  \<open>np.ma.masked_array(data, mask=m)\<close>: a mask of another size than the data is
  repeated when it has one entry and is a MaskError otherwise.
\<close>

definition masked_array :: "real list \<Rightarrow> bool list \<Rightarrow> error + (real \<times> bool) list" where
  "masked_array d m =
     (if length m = length d then Inr (zip d m)
      else if length m = 1 then Inr (map (\<lambda>v. (v, hd m)) d)
      else Inl MaskError)"

text \<open>
  \<open>obs.shape[1]\<close>, and the lines \<open>fit_lines\<close> skips:
  \<^verbatim>\<open>
  if line["posm"] < 0 or line["posm"] >= obs.shape[1]: continue
  if line["order"] < 0 or line["order"] >= len(obs): continue
  \<close>
\<close>

definition obs_ncol :: "'a list list \<Rightarrow> nat" where
  "obs_ncol obs = (case obs of [] \<Rightarrow> 0 | row # rest \<Rightarrow> length row)"

definition outside :: "(real \<times> bool) list list \<Rightarrow> line \<Rightarrow> bool" where
  "outside obs line =
     (posm line < 0 \<or> real (obs_ncol obs) \<le> posm line \<or>
      order line < 0 \<or> int (length obs) \<le> order line)"

text \<open>
  \<^verbatim>\<open>
  low = int(line["posm"] - line["width"] * 5); low = max(low, 0)
  high = int(line["posm"] + line["width"] * 5); high = min(high, len(obs[line["order"]]))
  section = obs[line["order"], low:high]
  x = np.arange(low, high, 1)
  x = np.ma.masked_array(x, mask=np.ma.getmaskarray(section))
  try:
      coef = util.gaussfit2(x, section)
      lines[i]["posm"] = coef[1]
  except:
      lines[i]["flag"] = False
  \<close>
  The bare \<open>except\<close> takes every exception of the two lines under \<open>try\<close>; the
  construction of the masked array is outside it.
\<close>

definition section_of :: "(real \<times> bool) list list \<Rightarrow> line \<Rightarrow> int \<times> int \<times> (real \<times> bool) list" where
  "section_of obs line =
     (let row = obs ! nat (order line);
          low = max (py_int (posm line - width line * 5)) 0;
          high = min (py_int (posm line + width line * 5)) (int (length row))
      in (low, high, py_slice row low high))"

definition fit_line :: "numlib \<Rightarrow> (real \<times> bool) list list \<Rightarrow> line \<Rightarrow> error + line" where
  "fit_line L obs line =
     (if posm line < 0 \<or> real (obs_ncol obs) \<le> posm line then Inr line
      else if order line < 0 \<or> int (length obs) \<le> order line then Inr line
      else
        case section_of obs line of (low, high, section) \<Rightarrow>
          (case masked_array (map real_of_int [low..high - 1]) (map snd section) of
             Inl e \<Rightarrow> Inl e
           | Inr x \<Rightarrow>
               (case gaussfit2 L x section of
                  Inl e \<Rightarrow> Inr (line\<lparr>flag := False\<rparr>)
                | Inr coef \<Rightarrow>
                    (case py_index coef 1 of
                       Inl e \<Rightarrow> Inr (line\<lparr>flag := False\<rparr>)
                     | Inr c \<Rightarrow> Inr (line\<lparr>posm := c\<rparr>)))))"

definition fit_lines :: "numlib \<Rightarrow> (real \<times> bool) list list \<Rightarrow> line list \<Rightarrow> error + line list" where
  "fit_lines L obs lines = all_right (map (fit_line L obs) lines)"

text \<open>
  An image of two orders, the second all masked, and three lines: one on the peak of the
  first order, one in the masked order, one left of the image.
\<close>

definition obs_fit :: "(real \<times> bool) list list" where
  "obs_fit = [[(0, False), (1, False), (5, False), (1, False), (0, False)],
              [(0, True), (0, True), (0, True), (0, True), (0, True)]]"

definition lines_fit :: "line list" where
  "lines_fit = [mk_line 100 (12 / 5) True, (mk_line 100 2 True)\<lparr>order := 1\<rparr>, mk_line 100 (- 1) True]"

section \<open>Alignment\<close>











section \<open>Properties of the alignment offset\<close>

lemma apply_alignment_offset_length:
  "apply_alignment_offset lines offset select = Inr lines' \<Longrightarrow> length lines' = length lines"
  by (auto simp: apply_alignment_offset_def split: option.splits if_splits)

lemma apply_alignment_offset_nth:
  assumes "apply_alignment_offset lines offset select = Inr lines'" and "i < length lines"
  shows "lines' ! i = (if selected select i then shift_line offset (lines ! i) else lines ! i)"
  using assms
  by (auto simp: apply_alignment_offset_def selected_def split: option.splits if_splits)

text \<open>
  C10, as stated, fails: \<open>posc\<close> is not among the fields the source updates. One line
  shifted by (1, 3) keeps \<open>posc = 10\<close>, where the described effect has 13.
\<close>

theorem apply_alignment_offset_posc_counterexample:
  "apply_alignment_offset [example_line] (1, 3) None
     = Inr [example_line\<lparr>xfirst := 11, xlast := 15, posm := 13, order := 3\<rparr>]
   \<and> apply_alignment_offset [example_line] (1, 3) None
     \<noteq> Inr [described_shift_line (1, 3) example_line]"
  by (simp add: apply_alignment_offset_def shift_line_def described_shift_line_def
      example_line_def)

text \<open>
  C10, amended: applying the offset (order shift, pixel shift) adds the order shift to
  the \<open>order\<close> field of every selected line and the pixel shift to its \<open>posm\<close>,
  \<open>xfirst\<close> and \<open>xlast\<close> fields; \<open>posc\<close>, \<open>wll\<close>, \<open>width\<close>, \<open>height\<close>
  and \<open>flag\<close> of a selected line and every field of a line that is not selected are
  as before, and the number of lines is the same.
\<close>

theorem apply_alignment_offset_frame:
  assumes "apply_alignment_offset lines (os, px) select = Inr lines'"
  shows "length lines' = length lines \<and>
    (\<forall>i < length lines.
       if selected select i
       then order (lines' ! i) = order (lines ! i) + os
          \<and> posm (lines' ! i) = posm (lines ! i) + real_of_int px
          \<and> xfirst (lines' ! i) = xfirst (lines ! i) + px
          \<and> xlast (lines' ! i) = xlast (lines ! i) + px
          \<and> posc (lines' ! i) = posc (lines ! i)
          \<and> wll (lines' ! i) = wll (lines ! i)
          \<and> width (lines' ! i) = width (lines ! i)
          \<and> height (lines' ! i) = height (lines ! i)
          \<and> flag (lines' ! i) = flag (lines ! i)
       else lines' ! i = lines ! i)"
proof -
  have len: "length lines' = length lines"
    using assms by (rule apply_alignment_offset_length)
  have "\<And>i. i < length lines \<Longrightarrow>
      lines' ! i = (if selected select i then shift_line (os, px) (lines ! i) else lines ! i)"
    using assms by (rule apply_alignment_offset_nth)
  then show ?thesis
    using len by (simp add: shift_line_def)
qed

theorem apply_alignment_offset_frame_witness:
  "apply_alignment_offset [example_line, example_line] (1, 3) (Some [False, True])
     = Inr [example_line, example_line\<lparr>xfirst := 11, xlast := 15, posm := 13, order := 3\<rparr>]
   \<and> posc (example_line\<lparr>xfirst := 11, xlast := 15, posm := 13, order := 3\<rparr>) = 10"
proof -
  have run: "apply_alignment_offset [example_line, example_line] (1, 3) (Some [False, True])
     = Inr [example_line, example_line\<lparr>xfirst := 11, xlast := 15, posm := 13, order := 3\<rparr>]"
    by (simp add: apply_alignment_offset_def shift_line_def example_line_def)
  from apply_alignment_offset_frame [OF run]
  have "posc ([example_line, example_line\<lparr>xfirst := 11, xlast := 15, posm := 13, order := 3\<rparr>] ! 1)
      = posc ([example_line, example_line] ! 1)"
    by (simp add: selected_def)
  then show ?thesis
    using run by (simp add: example_line_def)
qed

section \<open>Properties of outlier rejection\<close>

lemma reject_loop_converged:
  "reject_loop L cfg residual lines nbad = (n, Inr lines') \<Longrightarrow>
   build_2d_solution L cfg lines = Inr sol \<Longrightarrow>
   calculate_residual cfg sol lines = Inr residual \<Longrightarrow>
   converged L cfg lines'"
proof (induction L cfg residual lines nbad arbitrary: sol rule: reject_loop.induct)
  case (1 L cfg residual lines nbad)
  show ?case
  proof (cases "ma_any_gt (ma_abs residual) (threshold cfg)")
    case False
    with "1.prems" have "lines' = lines" by (simp add: reject_loop.simps [of L cfg residual lines nbad])
    with False "1.prems" show ?thesis by (simp add: converged_def)
  next
    case True
    have unf: "reject_loop L cfg residual lines nbad =
       (case reject_outlier residual lines of
           Inl e \<Rightarrow> (nbad, Inl e)
         | Inr ls \<Rightarrow>
             (case build_2d_solution L cfg ls of
                Inl e \<Rightarrow> (nbad, Inl e)
              | Inr s \<Rightarrow>
                  (case calculate_residual cfg s ls of
                     Inl e \<Rightarrow> (nbad, Inl e)
                   | Inr r \<Rightarrow> reject_loop L cfg r ls (nbad + 1))))"
      using True by (subst reject_loop.simps) simp
    show ?thesis
    proof (cases "reject_outlier residual lines")
      case (Inl e)
      with unf "1.prems"(1) show ?thesis by simp
    next
      case ro: (Inr ls)
      show ?thesis
      proof (cases "build_2d_solution L cfg ls")
        case (Inl e)
        with unf ro "1.prems"(1) show ?thesis by simp
      next
        case b: (Inr sol')
        show ?thesis
        proof (cases "calculate_residual cfg sol' ls")
          case (Inl e)
          with unf ro b "1.prems"(1) show ?thesis by simp
        next
          case c: (Inr res')
          from unf ro b c "1.prems"(1) have "reject_loop L cfg res' ls (nbad + 1) = (n, Inr lines')"
            by simp
          from "1.IH" [OF True ro b c this b c] show ?thesis .
        qed
      qed
    qed
  qed
qed

lemma reject_loop_count:
  "masks_flags residual lines \<Longrightarrow>
   fst (reject_loop L cfg residual lines nbad) \<le> nbad + count_flagged lines \<and>
   (\<forall>lines'. snd (reject_loop L cfg residual lines nbad) = Inr lines' \<longrightarrow>
      length lines' = length lines \<and>
      fst (reject_loop L cfg residual lines nbad) + count_flagged lines' = nbad + count_flagged lines)"
proof (induction L cfg residual lines nbad rule: reject_loop.induct)
  case (1 L cfg residual lines nbad)
  show ?case
  proof (cases "ma_any_gt (ma_abs residual) (threshold cfg)")
    case False
    then show ?thesis by (simp add: reject_loop.simps [of L cfg residual lines nbad])
  next
    case True
    from reject_outlier_step [OF True "1.prems"] obtain k where
      k: "k < length lines" "flag (lines ! k)"
         "reject_outlier residual lines = Inr (lines[k := (lines ! k)\<lparr>flag := False\<rparr>])" by blast
    let ?ls = "lines[k := (lines ! k)\<lparr>flag := False\<rparr>]"
    from count_flagged_update [OF k(1)] k(2) have cnt: "count_flagged ?ls + 1 = count_flagged lines" by simp
    show ?thesis
    proof (cases "build_2d_solution L cfg ?ls")
      case (Inl e)
      with True k(3) show ?thesis by (simp add: reject_loop.simps [of L cfg residual lines nbad])
    next
      case (Inr sol')
      show ?thesis
      proof (cases "calculate_residual cfg sol' ?ls")
        case (Inl e)
        with True k(3) Inr show ?thesis by (simp add: reject_loop.simps [of L cfg residual lines nbad])
      next
        case res: (Inr res')
        have eq: "reject_loop L cfg residual lines nbad = reject_loop L cfg res' ?ls (nbad + 1)"
          using True k(3) Inr res by (simp add: reject_loop.simps [of L cfg residual lines nbad])
        have "masks_flags res' ?ls" using res by (rule calculate_residual_masks)
        from "1.IH" [OF True k(3) Inr res this] cnt show ?thesis
          unfolding eq by auto
      qed
    qed
  qed
qed

lemma reject_lines_converged_fixed:
  assumes "converged L cfg lines"
  shows "reject_lines L cfg lines = (0, Inr lines)"
proof -
  from assms obtain sol res where
    a: "build_2d_solution L cfg lines = Inr sol" "calculate_residual cfg sol lines = Inr res"
       "\<not> ma_any_gt (ma_abs res) (threshold cfg)"
    by (auto simp: converged_def split: sum.splits)
  from a(3) have "reject_loop L cfg res lines 0 = (0, Inr lines)"
    by (simp add: reject_loop.simps [of L cfg res lines 0])
  with a(1,2) show ?thesis by (simp add: reject_lines_def)
qed


lemma calculate_residual_nth:
  assumes "calculate_residual cfg sol lines = Inr res" and "i < length lines"
  shows "\<exists>w. evaluate_at cfg sol (posm (lines ! i)) (order (lines ! i)) = Inr w \<and>
             res ! i = (velocity_residual w (wll (lines ! i)), \<not> flag (lines ! i))"
    and "length res = length lines"
proof -
  from assms(1) obtain ws where
    ws: "evaluate_solution cfg (map posm lines) (map order lines) sol = Inr ws"
    and r: "res = map (\<lambda>(w, l). (velocity_residual w (wll l), \<not> flag l)) (zip ws lines)"
    by (auto simp: calculate_residual_def split: sum.splits)
  from evaluate_solution_length [OF ws] have len: "length ws = length lines" by simp
  then show "length res = length lines" by (simp add: r)
  from ws have ar: "all_right (map (\<lambda>(x, y). evaluate_at cfg sol x y)
      (zip (map posm lines) (map order lines))) = Inr ws"
    by (simp add: evaluate_solution_def split: if_splits)
  from all_right_nth [OF ar, of i] assms(2)
  have "evaluate_at cfg sol (posm (lines ! i)) (order (lines ! i)) = Inr (ws ! i)" by simp
  moreover have "res ! i = (velocity_residual (ws ! i) (wll (lines ! i)), \<not> flag (lines ! i))"
    using len assms(2) by (simp add: r)
  ultimately show "\<exists>w. evaluate_at cfg sol (posm (lines ! i)) (order (lines ! i)) = Inr w \<and>
             res ! i = (velocity_residual w (wll (lines ! i)), \<not> flag (lines ! i))" by blast
qed

lemma not_any_gt_nth:
  assumes "\<not> ma_any_gt (ma_abs res) t" and "i < length res" and "\<not> snd (res ! i)"
  shows "\<bar>fst (res ! i)\<bar> \<le> t"
proof -
  have "(ma_abs res) ! i \<in> set (ma_abs res)" using assms(2) by (simp add: ma_abs_def)
  moreover have "(ma_abs res) ! i = (\<bar>fst (res ! i)\<bar>, snd (res ! i))"
    using assms(2) by (simp add: ma_abs_def case_prod_unfold)
  ultimately have "(\<bar>fst (res ! i)\<bar>, snd (res ! i)) \<in> set (ma_abs res)" by simp
  with assms(1) have "\<not> (\<not> snd (res ! i) \<and> \<bar>fst (res ! i)\<bar> > t)"
    unfolding ma_any_gt_def list_ex_iff by fastforce
  with assms(3) show ?thesis by simp
qed

text \<open>
  C1: when \<open>reject_lines\<close> returns, the solution rebuilt from the flags it returns
  evaluates at every line that is still flagged, and the velocity residual of that line,
  \<open>(w - wll) / wll * speed_of_light\<close> with \<open>w\<close> the evaluated wavelength, is at most
  the threshold in absolute value. The residual divides by the catalogue wavelength,
  which is taken to be non-zero.
\<close>

theorem reject_lines_residual_bound:
  assumes "reject_lines L cfg lines = (n, Inr lines')"
  shows "\<exists>sol. build_2d_solution L cfg lines' = Inr sol \<and>
     (\<forall>l \<in> set lines'. flag l \<and> wll l \<noteq> 0 \<longrightarrow>
        (\<exists>w. evaluate_at cfg sol (posm l) (order l) = Inr w \<and>
             \<bar>(w - wll l) / wll l * speed_of_light\<bar> \<le> threshold cfg))"
proof -
  from assms obtain sol0 res0 where
    a: "build_2d_solution L cfg lines = Inr sol0" "calculate_residual cfg sol0 lines = Inr res0"
       "reject_loop L cfg res0 lines 0 = (n, Inr lines')"
    by (auto simp: reject_lines_def split: sum.splits)
  from reject_loop_converged [OF a(3) a(1) a(2)] have "converged L cfg lines'" .
  then obtain sol res where
    b: "build_2d_solution L cfg lines' = Inr sol" "calculate_residual cfg sol lines' = Inr res"
       "\<not> ma_any_gt (ma_abs res) (threshold cfg)"
    by (auto simp: converged_def split: sum.splits)
  have "\<exists>w. evaluate_at cfg sol (posm l) (order l) = Inr w \<and>
             \<bar>(w - wll l) / wll l * speed_of_light\<bar> \<le> threshold cfg"
    if l: "l \<in> set lines'" "flag l" for l
  proof -
    from l(1) obtain i where i: "i < length lines'" "lines' ! i = l"
      by (auto simp: in_set_conv_nth)
    from calculate_residual_nth [OF b(2) i(1)] i(2) obtain w where
      w: "evaluate_at cfg sol (posm l) (order l) = Inr w"
         "res ! i = (velocity_residual w (wll l), \<not> flag l)" "length res = length lines'"
      by auto
    from not_any_gt_nth [OF b(3), of i] w(2,3) i(1) l(2)
    have "\<bar>velocity_residual w (wll l)\<bar> \<le> threshold cfg" by simp
    with w(1) show ?thesis by (auto simp: velocity_residual_def)
  qed
  with b(1) show ?thesis by blast
qed

lemma reject_outlier_worst:
  assumes cond: "ma_any_gt (ma_abs residual) t" and mf: "masks_flags residual ls"
  shows "\<exists>i < length ls. flag (ls ! i) \<and>
      (\<forall>j < length ls. flag (ls ! j) \<longrightarrow> \<bar>fst (residual ! j)\<bar> \<le> \<bar>fst (residual ! i)\<bar>) \<and>
      reject_outlier residual ls = Inr (ls[i := (ls ! i)\<lparr>flag := False\<rparr>]) \<and>
      count_flagged (ls[i := (ls ! i)\<lparr>flag := False\<rparr>]) + 1 = count_flagged ls"
proof -
  from reject_outlier_step [OF cond mf] obtain k where
    k: "k < length ls" "flag (ls ! k)" "ma_argmax (ma_abs residual) = Inr k"
       "reject_outlier residual ls = Inr (ls[k := (ls ! k)\<lparr>flag := False\<rparr>])" by blast
  from mf have len: "length residual = length ls"
    unfolding masks_flags_def by (metis length_map)
  have mask: "snd (residual ! j) = (\<not> flag (ls ! j))" if "j < length ls" for j
    using mf that len unfolding masks_flags_def by (metis nth_map)
  have nth: "ma_abs residual ! j = (\<bar>fst (residual ! j)\<bar>, snd (residual ! j))" if "j < length ls" for j
    using that len by (simp add: ma_abs_def case_prod_unfold)
  have worst: "\<bar>fst (residual ! j)\<bar> \<le> \<bar>fst (residual ! k)\<bar>" if j: "j < length ls" "flag (ls ! j)" for j
  proof -
    have "ma_abs residual ! j \<in> set (ma_abs residual)" using j(1) len by (simp add: ma_abs_def)
    with ma_argmax_spec [OF k(3)] have "\<not> filled_less (ma_abs residual ! k) (ma_abs residual ! j)"
      by blast
    then show ?thesis using nth [OF j(1)] nth [OF k(1)] mask [OF j(1)] mask [OF k(1)] j(2) k(2)
      by (simp split: if_splits)
  qed
  from count_flagged_update [OF k(1)] k(2)
  have "count_flagged (ls[k := (ls ! k)\<lparr>flag := False\<rparr>]) + 1 = count_flagged ls" by simp
  with k worst show ?thesis by blast
qed

lemma count_flagged_le: "count_flagged lines \<le> length lines"
  by (simp add: count_flagged_def)

text \<open>
  C4: \<open>reject_lines\<close> is a total function (its loop is defined with a termination
  proof), and the number of passes of its loop is at most the number of flagged lines,
  hence at most the number of lines; when it returns, the flagged count has dropped by
  exactly the number of passes. In every pass (the mask of the residuals is the
  complement of the flags and some unmasked residual exceeds the threshold)
  \<open>reject_outlier\<close> clears the flag of exactly one flagged line, one whose absolute
  residual is greatest among the flagged lines, so the flagged count drops by one.
\<close>

theorem reject_lines_iterations:
  "fst (reject_lines L cfg lines) \<le> count_flagged lines \<and>
   count_flagged lines \<le> length lines \<and>
   (\<forall>lines'. snd (reject_lines L cfg lines) = Inr lines' \<longrightarrow>
      length lines' = length lines \<and>
      fst (reject_lines L cfg lines) + count_flagged lines' = count_flagged lines) \<and>
   (\<forall>residual ls. masks_flags residual ls \<and> ma_any_gt (ma_abs residual) (threshold cfg) \<longrightarrow>
      (\<exists>i < length ls. flag (ls ! i) \<and>
         (\<forall>j < length ls. flag (ls ! j) \<longrightarrow> \<bar>fst (residual ! j)\<bar> \<le> \<bar>fst (residual ! i)\<bar>) \<and>
         reject_outlier residual ls = Inr (ls[i := (ls ! i)\<lparr>flag := False\<rparr>]) \<and>
         count_flagged (ls[i := (ls ! i)\<lparr>flag := False\<rparr>]) + 1 = count_flagged ls))"
proof -
  have loop: "fst (reject_lines L cfg lines) \<le> count_flagged lines \<and>
     (\<forall>lines'. snd (reject_lines L cfg lines) = Inr lines' \<longrightarrow>
        length lines' = length lines \<and>
        fst (reject_lines L cfg lines) + count_flagged lines' = count_flagged lines)"
  proof (cases "build_2d_solution L cfg lines")
    case (Inl e)
    then show ?thesis by (simp add: reject_lines_def)
  next
    case b: (Inr sol)
    show ?thesis
    proof (cases "calculate_residual cfg sol lines")
      case (Inl e)
      with b show ?thesis by (simp add: reject_lines_def)
    next
      case c: (Inr res)
      have eq: "reject_lines L cfg lines = reject_loop L cfg res lines 0"
        using b c by (simp add: reject_lines_def)
      from reject_loop_count [OF calculate_residual_masks [OF c], of L cfg 0]
      show ?thesis unfolding eq by simp
    qed
  qed
  moreover note count_flagged_le [of lines]
  moreover have "\<forall>residual ls. masks_flags residual ls \<and> ma_any_gt (ma_abs residual) (threshold cfg) \<longrightarrow>
      (\<exists>i < length ls. flag (ls ! i) \<and>
         (\<forall>j < length ls. flag (ls ! j) \<longrightarrow> \<bar>fst (residual ! j)\<bar> \<le> \<bar>fst (residual ! i)\<bar>) \<and>
         reject_outlier residual ls = Inr (ls[i := (ls ! i)\<lparr>flag := False\<rparr>]) \<and>
         count_flagged (ls[i := (ls ! i)\<lparr>flag := False\<rparr>]) + 1 = count_flagged ls)"
    using reject_outlier_worst by blast
  ultimately show ?thesis by blast
qed

text \<open>
  C9: on a converged line list (the solution built from the flagged lines evaluates, and
  no residual of a flagged line exceeds the threshold) \<open>reject_lines\<close> makes no pass
  and returns the list as it is; and the list a run of \<open>reject_lines\<close> returns is
  converged, so a second run returns it unchanged.
\<close>

theorem reject_lines_idempotent:
  "(converged L cfg lines \<longrightarrow> reject_lines L cfg lines = (0, Inr lines)) \<and>
   (\<forall>n lines'. reject_lines L cfg lines = (n, Inr lines') \<longrightarrow>
      reject_lines L cfg lines' = (0, Inr lines'))"
proof -
  have "reject_lines L cfg lines' = (0, Inr lines')"
    if r: "reject_lines L cfg lines = (n, Inr lines')" for n lines'
  proof -
    from r obtain sol0 res0 where
      a: "build_2d_solution L cfg lines = Inr sol0" "calculate_residual cfg sol0 lines = Inr res0"
         "reject_loop L cfg res0 lines 0 = (n, Inr lines')"
      by (auto simp: reject_lines_def split: sum.splits)
    from reject_loop_converged [OF a(3) a(1) a(2)] show ?thesis
      by (rule reject_lines_converged_fixed)
  qed
  then show ?thesis using reject_lines_converged_fixed by blast
qed

section \<open>Runs of the rejection loop\<close>

lemma reject_lines_three_lines: "reject_lines mean_lib cfg0 three_lines = (2, Inr one_left)"
  by code_simp

lemma build_one_left: "build_2d_solution mean_lib cfg0 one_left = Inr [[400]]"
  by code_simp

theorem reject_lines_residual_bound_witness:
  "reject_lines mean_lib cfg0 three_lines = (2, Inr one_left) \<and>
   build_2d_solution mean_lib cfg0 one_left = Inr [[400]] \<and>
   flag (mk_line 400 3 True) \<and> wll (mk_line 400 3 True) \<noteq> 0 \<and>
   evaluate_at cfg0 [[400]] 3 0 = Inr 400 \<and>
   \<bar>(400 - 400) / 400 * speed_of_light\<bar> \<le> threshold cfg0"
proof -
  from reject_lines_residual_bound [OF reject_lines_three_lines] build_one_left
  have all: "\<forall>l \<in> set one_left. flag l \<and> wll l \<noteq> 0 \<longrightarrow>
        (\<exists>w. evaluate_at cfg0 [[400]] (posm l) (order l) = Inr w \<and>
             \<bar>(w - wll l) / wll l * speed_of_light\<bar> \<le> threshold cfg0)"
    by simp
  have "mk_line 400 3 True \<in> set one_left" by (simp add: one_left_def)
  with all have "flag (mk_line 400 3 True) \<and> wll (mk_line 400 3 True) \<noteq> 0 \<longrightarrow>
        (\<exists>w. evaluate_at cfg0 [[400]] (posm (mk_line 400 3 True)) (order (mk_line 400 3 True)) = Inr w \<and>
             \<bar>(w - wll (mk_line 400 3 True)) / wll (mk_line 400 3 True) * speed_of_light\<bar>
               \<le> threshold cfg0)"
    by blast
  moreover have f: "flag (mk_line 400 3 True) \<and> wll (mk_line 400 3 True) \<noteq> 0"
    by (simp add: mk_line_def)
  moreover have e: "evaluate_at cfg0 [[400]] 3 0 = Inr 400" by code_simp
  ultimately have "\<bar>(400 - 400) / 400 * speed_of_light\<bar> \<le> threshold cfg0"
    by (auto simp: mk_line_def)
  with f e show ?thesis
    using reject_lines_three_lines build_one_left by simp
qed

theorem reject_lines_iterations_witness:
  "fst (reject_lines mean_lib cfg0 three_lines) = 2 \<and>
   count_flagged three_lines = 3 \<and> length three_lines = 3 \<and>
   snd (reject_lines mean_lib cfg0 three_lines) = Inr one_left \<and>
   2 + count_flagged one_left = count_flagged three_lines \<and>
   masks_flags [(299792458, False), (299792458, False), (- 149896229, False)] three_lines \<and>
   ma_any_gt (ma_abs [(299792458, False), (299792458, False), (- 149896229, False)]) (threshold cfg0) \<and>
   reject_outlier [(299792458, False), (299792458, False), (- 149896229, False)] three_lines
     = Inr [mk_line 100 1 False, mk_line 100 2 True, mk_line 400 3 True]"
proof -
  let ?r = "[(299792458, False), (299792458, False), (- 149896229, False)] :: (real \<times> bool) list"
  note t = reject_lines_iterations [of mean_lib cfg0 three_lines]
  have s: "snd (reject_lines mean_lib cfg0 three_lines) = Inr one_left"
    by (simp add: reject_lines_three_lines)
  have f: "fst (reject_lines mean_lib cfg0 three_lines) = 2"
    by (simp add: reject_lines_three_lines)
  from t s have "fst (reject_lines mean_lib cfg0 three_lines) + count_flagged one_left
      = count_flagged three_lines" by blast
  with f have drop: "2 + count_flagged one_left = count_flagged three_lines" by simp
  have m: "masks_flags ?r three_lines" by code_simp
  have a: "ma_any_gt (ma_abs ?r) (threshold cfg0)" by code_simp
  have ro: "reject_outlier ?r three_lines
     = Inr [mk_line 100 1 False, mk_line 100 2 True, mk_line 400 3 True]" by code_simp
  have c: "count_flagged three_lines = 3" by code_simp
  have l: "length three_lines = 3" by (simp add: three_lines_def)
  from f c l s drop m a ro show ?thesis by blast
qed

lemma converged_one_left: "converged mean_lib cfg0 one_left"
  by code_simp

theorem reject_lines_idempotent_witness:
  "converged mean_lib cfg0 one_left \<and> reject_lines mean_lib cfg0 one_left = (0, Inr one_left)"
  using reject_lines_idempotent [of mean_lib cfg0 one_left] converged_one_left by blast

section \<open>Properties of the solution builder\<close>








section \<open>Properties of the score\<close>










section \<open>Properties of the mode counting\<close>

lemma length_add_from [simp]: "length (add_from k d n) = length n"
  by (simp add: add_from_def)

lemma nth_add_from:
  "i < length n \<Longrightarrow> add_from k d n ! i = (if k \<le> i then n ! i + d else n ! i)"
  by (simp add: add_from_def nth_enumerate_eq)

lemma length_foldl_add_from [simp]:
  "length (foldl (\<lambda>n j. add_from (Suc j) d n) n js) = length n"
  by (induction js arbitrary: n) simp_all

lemma nth_foldl_add_from:
  "k < length n \<Longrightarrow>
   foldl (\<lambda>n j. add_from (Suc j) d n) n js ! k
     = n ! k + d * int (length (filter (\<lambda>j. j < k) js))"
proof (induction js arbitrary: n)
  case Nil
  show ?case by simp
next
  case (Cons j js)
  have "k < length (add_from (Suc j) d n)" using Cons.prems by simp
  from Cons.IH [OF this] Cons.prems show ?case
    by (auto simp: nth_add_from algebra_simps)
qed

lemma length_np_diff: "length (np_diff xs) = length xs - 1"
  by (simp add: np_diff_def)

lemma nth_np_diff: "j < length xs - 1 \<Longrightarrow> np_diff xs ! j = gap xs j"
  by (simp add: np_diff_def gap_def nth_tl)

lemma filter_less_np_where:
  assumes "k \<le> length xs"
  shows "filter (\<lambda>j. j < k) (np_where P xs) = filter (\<lambda>j. P (xs ! j)) [0..<k]"
proof -
  have "[0..<length xs] = [0..<k] @ [k..<length xs]"
    using assms by (metis le0 upt_add_eq_append le_add_diff_inverse)
  then have "filter (\<lambda>j. j < k) (np_where P xs)
      = filter (\<lambda>j. j < k) (filter (\<lambda>i. P (xs ! i)) [0..<k])
        @ filter (\<lambda>j. j < k) (filter (\<lambda>i. P (xs ! i)) [k..<length xs])"
    by (simp add: np_where_def)
  also have "filter (\<lambda>j. j < k) (filter (\<lambda>i. P (xs ! i)) [k..<length xs]) = []"
    by (auto simp: filter_empty_conv)
  also have "filter (\<lambda>j. j < k) (filter (\<lambda>i. P (xs ! i)) [0..<k]) = filter (\<lambda>i. P (xs ! i)) [0..<k]"
    unfolding filter_filter by (rule filter_cong) auto
  finally show ?thesis by simp
qed

lemma mode_index_nth:
  assumes "k < length peaks"
  shows "mode_index peaks ! k =
     int k + int (length (filter (\<lambda>j. exceeds 1.5 (median_gap peaks) (gap peaks j)) [0..<k]))
           - int (length (filter (\<lambda>j. falls_below 0.5 (median_gap peaks) (gap peaks j)) [0..<k]))"
proof -
  have kd: "k \<le> length (np_diff peaks)" using assms by (simp add: length_np_diff)
  have g: "filter (\<lambda>j. P (np_diff peaks ! j)) [0..<k] = filter (\<lambda>j. P (gap peaks j)) [0..<k]" for P
    using assms by (intro filter_cong) (simp_all add: nth_np_diff)
  show ?thesis
    using assms
    by (simp add: mode_index_def Let_def nth_foldl_add_from filter_less_np_where [OF kd] g
        median_gap_def)
qed

lemma mode_index_example: "mode_index comb_peaks = [0, 1, 2, 3, 5, 6, 7, 7, 8, 9, 10]"
  by code_simp

lemma median_example: "median_gap comb_peaks = Some 10"
  by code_simp


lemma length_mode_index: "length (mode_index peaks) = length peaks"
  by (simp add: mode_index_def Let_def)

lemma mode_index_step:
  assumes "Suc k < length peaks"
  shows "mode_index peaks ! Suc k - mode_index peaks ! k =
     1 + (if exceeds 1.5 (median_gap peaks) (gap peaks k) then 1 else 0)
       - (if falls_below 0.5 (median_gap peaks) (gap peaks k) then 1 else 0)"
proof -
  from assms have k: "k < length peaks" by simp
  show ?thesis
    unfolding mode_index_nth [OF assms] mode_index_nth [OF k] by simp
qed

text \<open>
  C5: the mode indices are as many as the peaks; the index of peak \<open>k\<close> is \<open>k\<close>
  plus the number of earlier gaps greater than 1.5 times the median gap minus the number
  of earlier gaps smaller than 0.5 times the median gap, so from one peak to the next
  the index grows by 1, by 2 across a gap greater than 1.5 times the median, and by 0
  across a gap smaller than 0.5 times the median. For peaks 10 px apart with one gap of
  21 px and one of 4 px the median gap is 10 and the indices are 0, 1, 2, 3, 5, 6, 7, 7,
  8, 9, 10.
\<close>

theorem mode_index_counts:
  "length (mode_index peaks) = length peaks \<and>
   (\<forall>k < length peaks.
      mode_index peaks ! k =
        int k
        + int (length (filter (\<lambda>j. exceeds 1.5 (median_gap peaks) (gap peaks j)) [0..<k]))
        - int (length (filter (\<lambda>j. falls_below 0.5 (median_gap peaks) (gap peaks j)) [0..<k]))) \<and>
   (\<forall>k. Suc k < length peaks \<longrightarrow>
      mode_index peaks ! Suc k - mode_index peaks ! k =
        1 + (if exceeds 1.5 (median_gap peaks) (gap peaks k) then 1 else 0)
          - (if falls_below 0.5 (median_gap peaks) (gap peaks k) then 1 else 0)) \<and>
   median_gap comb_peaks = Some 10 \<and>
   map (gap comb_peaks) [0..<10] = [10, 10, 10, 21, 10, 10, 4, 6, 10, 10] \<and>
   mode_index comb_peaks = [0, 1, 2, 3, 5, 6, 7, 7, 8, 9, 10]"
proof -
  have "map (gap comb_peaks) [0..<10] = [10, 10, 10, 21, 10, 10, 4, 6, 10, 10]"
    by code_simp
  then show ?thesis
    using length_mode_index mode_index_nth mode_index_step median_example mode_index_example
    by blast
qed

theorem mode_index_counts_witness:
  "Suc 3 < length comb_peaks \<and> gap comb_peaks 3 = 21 \<and>
   exceeds 1.5 (median_gap comb_peaks) (gap comb_peaks 3) \<and>
   mode_index comb_peaks ! Suc 3 - mode_index comb_peaks ! 3 = 2 \<and>
   Suc 6 < length comb_peaks \<and> gap comb_peaks 6 = 4 \<and>
   falls_below 0.5 (median_gap comb_peaks) (gap comb_peaks 6) \<and>
   mode_index comb_peaks ! Suc 6 - mode_index comb_peaks ! 6 = 0 \<and>
   Suc 0 < length comb_peaks \<and> gap comb_peaks 0 = 10 \<and>
   mode_index comb_peaks ! Suc 0 - mode_index comb_peaks ! 0 = 1"
proof -
  note t = mode_index_counts [of comb_peaks]
  have l: "Suc 3 < length comb_peaks" "Suc 6 < length comb_peaks" "Suc 0 < length comb_peaks"
    by (simp_all add: comb_peaks_def)
  have g: "gap comb_peaks 3 = 21" "gap comb_peaks 6 = 4" "gap comb_peaks 0 = 10"
    by code_simp+
  have e3: "exceeds 1.5 (median_gap comb_peaks) (gap comb_peaks 3)"
    and f3: "\<not> falls_below 0.5 (median_gap comb_peaks) (gap comb_peaks 3)"
    and e6: "\<not> exceeds 1.5 (median_gap comb_peaks) (gap comb_peaks 6)"
    and f6: "falls_below 0.5 (median_gap comb_peaks) (gap comb_peaks 6)"
    and e0: "\<not> exceeds 1.5 (median_gap comb_peaks) (gap comb_peaks 0)"
    and f0: "\<not> falls_below 0.5 (median_gap comb_peaks) (gap comb_peaks 0)"
    by code_simp+
  from t l(1) have "mode_index comb_peaks ! Suc 3 - mode_index comb_peaks ! 3 =
        1 + (if exceeds 1.5 (median_gap comb_peaks) (gap comb_peaks 3) then 1 else 0)
          - (if falls_below 0.5 (median_gap comb_peaks) (gap comb_peaks 3) then 1 else 0)"
    by blast
  with e3 f3 have s3: "mode_index comb_peaks ! Suc 3 - mode_index comb_peaks ! 3 = 2" by simp
  from t l(2) have "mode_index comb_peaks ! Suc 6 - mode_index comb_peaks ! 6 =
        1 + (if exceeds 1.5 (median_gap comb_peaks) (gap comb_peaks 6) then 1 else 0)
          - (if falls_below 0.5 (median_gap comb_peaks) (gap comb_peaks 6) then 1 else 0)"
    by blast
  with e6 f6 have s6: "mode_index comb_peaks ! Suc 6 - mode_index comb_peaks ! 6 = 0" by simp
  from t l(3) have "mode_index comb_peaks ! Suc 0 - mode_index comb_peaks ! 0 =
        1 + (if exceeds 1.5 (median_gap comb_peaks) (gap comb_peaks 0) then 1 else 0)
          - (if falls_below 0.5 (median_gap comb_peaks) (gap comb_peaks 0) then 1 else 0)"
    by blast
  with e0 f0 have s0: "mode_index comb_peaks ! Suc 0 - mode_index comb_peaks ! 0 = 1" by simp
  from l g e3 f6 s3 s6 s0 show ?thesis by blast
qed

section \<open>Properties of the automatic identification\<close>








lemma all_right_map_nth:
  "all_right (map f xs) = Inr ys \<Longrightarrow> i < length xs \<Longrightarrow> f (xs ! i) = Inr (ys ! i)"
  using all_right_nth [of "map f xs" ys i] by simp






section \<open>Properties of the feature localization\<close>

lemma py_int_nonneg: "0 \<le> r \<Longrightarrow> 0 \<le> py_int r"
  by (simp add: py_int_def)

lemma length_py_slice:
  assumes "0 \<le> lo" and "0 \<le> hi" and "hi \<le> int (length xs)"
  shows "length (py_slice xs lo hi) = nat (hi - lo)"
proof -
  let ?n = "int (length xs)"
  have "py_slice xs lo hi = take (nat (hi - min lo ?n)) (drop (nat (min lo ?n)) xs)"
    using assms by (simp add: py_slice_def Let_def min_def)
  then show ?thesis using assms by (auto simp: min_def)
qed

lemma section_window:
  assumes "0 \<le> posm l" and "0 \<le> width l"
    and "section_of obs l = (low, high, section)"
  shows "length section = length [low..high - 1]"
proof -
  let ?row = "obs ! nat (order l)"
  from assms(3) have low: "low = max (py_int (posm l - width l * 5)) 0"
    and high: "high = min (py_int (posm l + width l * 5)) (int (length ?row))"
    and sec: "section = py_slice ?row low high"
    by (auto simp: section_of_def Let_def)
  have "0 \<le> posm l + width l * 5" using assms(1,2) by simp
  from py_int_nonneg [OF this] have h0: "0 \<le> high" by (simp add: high)
  have l0: "0 \<le> low" by (simp add: low)
  have hn: "high \<le> int (length ?row)" by (simp add: high)
  from length_py_slice [OF l0 h0 hn] show ?thesis by (simp add: sec)
qed

lemma gaussfit2_all_masked: "list_all snd section \<Longrightarrow> gaussfit2 L x section = Inl ValueError"
proof -
  assume "list_all snd section"
  then have "compressed section = []"
    by (auto simp: compressed_def list_all_iff filter_empty_conv)
  then show ?thesis by (simp add: gaussfit2_def Let_def)
qed


lemma fit_line_inside:
  assumes "\<not> outside obs l" and "0 \<le> width l"
    and "section_of obs l = (low, high, section)"
  shows "fit_line L obs l =
     (case gaussfit2 L (zip (map real_of_int [low..high - 1]) (map snd section)) section of
        Inl e \<Rightarrow> Inr (l\<lparr>flag := False\<rparr>)
      | Inr coef \<Rightarrow>
          (case py_index coef 1 of
             Inl e \<Rightarrow> Inr (l\<lparr>flag := False\<rparr>)
           | Inr c \<Rightarrow> Inr (l\<lparr>posm := c\<rparr>)))"
proof -
  from assms(1) have p0: "0 \<le> posm l" by (simp add: outside_def)
  from section_window [OF p0 assms(2,3)]
  have "masked_array (map real_of_int [low..high - 1]) (map snd section)
      = Inr (zip (map real_of_int [low..high - 1]) (map snd section))"
    by (simp add: masked_array_def)
  with assms(1,3) show ?thesis
    by (simp add: fit_line_def outside_def)
qed

lemma fit_line_outside: "outside obs l \<Longrightarrow> fit_line L obs l = Inr l"
  by (auto simp: fit_line_def outside_def)

lemma fit_line_total:
  assumes "0 \<le> width l"
  shows "\<exists>l'. fit_line L obs l = Inr l'"
proof (cases "outside obs l")
  case True
  then show ?thesis by (simp add: fit_line_outside)
next
  case False
  obtain low high sect where s: "section_of obs l = (low, high, sect)"
    by (metis prod_cases3)
  show ?thesis
    unfolding fit_line_inside [OF False assms s] by (simp split: sum.splits)
qed

lemma all_right_total:
  "(\<forall>x \<in> set xs. \<exists>y. f x = Inr y) \<Longrightarrow> \<exists>ys. all_right (map f xs) = Inr ys"
proof (induction xs)
  case Nil
  show ?case by simp
next
  case (Cons x xs)
  then obtain y ys where "f x = Inr y" "all_right (map f xs) = Inr ys" by auto
  then show ?case by simp
qed

text \<open>
  C6, amended: with non-negative line widths \<open>fit_lines\<close> raises no exception and
  returns as many lines as it was given. A line whose \<open>posm\<close> or \<open>order\<close> is outside
  the image is returned as it is, its flag included. For a line inside the image, when
  the Gaussian fit of its window raises (an all-masked or empty window among the causes)
  the flag is set to false and no other field changes; when the fit returns, \<open>posm\<close>
  is replaced by the fitted center \<open>coef[1]\<close> and no other field, the flag included,
  changes.
\<close>

theorem fit_lines_policy:
  assumes "\<forall>l \<in> set lines. 0 \<le> width l"
  shows "\<exists>lines'. fit_lines L obs lines = Inr lines' \<and> length lines' = length lines \<and>
    (\<forall>i < length lines.
       (outside obs (lines ! i) \<longrightarrow> lines' ! i = lines ! i) \<and>
       (\<not> outside obs (lines ! i) \<longrightarrow>
          (\<exists>low high section.
             section_of obs (lines ! i) = (low, high, section) \<and>
             (list_all snd section \<longrightarrow> lines' ! i = (lines ! i)\<lparr>flag := False\<rparr>) \<and>
             (case gaussfit2 L (zip (map real_of_int [low..high - 1]) (map snd section)) section of
                Inl e \<Rightarrow> lines' ! i = (lines ! i)\<lparr>flag := False\<rparr>
              | Inr coef \<Rightarrow>
                  (case py_index coef 1 of
                     Inl e \<Rightarrow> lines' ! i = (lines ! i)\<lparr>flag := False\<rparr>
                   | Inr c \<Rightarrow> lines' ! i = (lines ! i)\<lparr>posm := c\<rparr>)))))"
proof -
  from assms have "\<forall>l \<in> set lines. \<exists>l'. fit_line L obs l = Inr l'"
    using fit_line_total by blast
  from all_right_total [OF this] obtain lines' where
    r: "all_right (map (fit_line L obs) lines) = Inr lines'" by blast
  from all_right_length [OF r] have len: "length lines' = length lines" by simp
  have per: "(outside obs (lines ! i) \<longrightarrow> lines' ! i = lines ! i) \<and>
       (\<not> outside obs (lines ! i) \<longrightarrow>
          (\<exists>low high section.
             section_of obs (lines ! i) = (low, high, section) \<and>
             (list_all snd section \<longrightarrow> lines' ! i = (lines ! i)\<lparr>flag := False\<rparr>) \<and>
             (case gaussfit2 L (zip (map real_of_int [low..high - 1]) (map snd section)) section of
                Inl e \<Rightarrow> lines' ! i = (lines ! i)\<lparr>flag := False\<rparr>
              | Inr coef \<Rightarrow>
                  (case py_index coef 1 of
                     Inl e \<Rightarrow> lines' ! i = (lines ! i)\<lparr>flag := False\<rparr>
                   | Inr c \<Rightarrow> lines' ! i = (lines ! i)\<lparr>posm := c\<rparr>))))"
    if i: "i < length lines" for i
  proof (cases "outside obs (lines ! i)")
    case True
    from all_right_map_nth [OF r i] fit_line_outside [OF True, of L] True
    show ?thesis by simp
  next
    case False
    obtain low high sect where s: "section_of obs (lines ! i) = (low, high, sect)"
      by (metis prod_cases3)
    from i assms have w: "0 \<le> width (lines ! i)" by simp
    note fl = fit_line_inside [OF False w s, of L]
    from all_right_map_nth [OF r i] have eq: "fit_line L obs (lines ! i) = Inr (lines' ! i)" .
    have c: "(case gaussfit2 L (zip (map real_of_int [low..high - 1]) (map snd sect)) sect of
                Inl e \<Rightarrow> lines' ! i = (lines ! i)\<lparr>flag := False\<rparr>
              | Inr coef \<Rightarrow>
                  (case py_index coef 1 of
                     Inl e \<Rightarrow> lines' ! i = (lines ! i)\<lparr>flag := False\<rparr>
                   | Inr c \<Rightarrow> lines' ! i = (lines ! i)\<lparr>posm := c\<rparr>))"
      using eq unfolding fl by (auto split: sum.splits)
    have m: "lines' ! i = (lines ! i)\<lparr>flag := False\<rparr>" if "list_all snd sect"
      using c unfolding gaussfit2_all_masked [OF that] by simp
    from False s c m show ?thesis by blast
  qed
  from r len per show ?thesis unfolding fit_lines_def by blast
qed

text \<open>
  A negative width can put the upper end of the window before the start of the row:
  the slice of the observation then counts from the end of the row while \<open>np.arange\<close>
  is empty, and the masked array of the two raises outside the \<open>try\<close>.
\<close>

lemma fit_lines_negative_width:
  "fit_lines mean_lib [replicate 12 (1, False)] [(mk_line 100 3 True)\<lparr>width := - 1\<rparr>]
     = Inl MaskError"
  by code_simp

text \<open>
  C6, as stated, fails: a line whose guessed position is outside the image keeps its flag.
  A flagged line at pixel -1 and a flagged line in order 5 of a two-order image are
  returned as they are, for every behaviour of the library.
\<close>

theorem fit_lines_outside_counterexample:
  "(\<forall>L. fit_lines L obs_fit [mk_line 100 (- 1) True, (mk_line 100 2 True)\<lparr>order := 5\<rparr>]
       = Inr [mk_line 100 (- 1) True, (mk_line 100 2 True)\<lparr>order := 5\<rparr>]) \<and>
   posm (mk_line 100 (- 1) True) < 0 \<and> flag (mk_line 100 (- 1) True) \<and>
   int (length obs_fit) \<le> order ((mk_line 100 2 True)\<lparr>order := 5\<rparr>) \<and>
   flag ((mk_line 100 2 True)\<lparr>order := 5\<rparr>)"
  by (simp add: fit_lines_def fit_line_def obs_fit_def obs_ncol_def mk_line_def)

lemma fit_lines_run:
  "fit_lines mean_lib obs_fit lines_fit =
     Inr [(mk_line 100 (12 / 5) True)\<lparr>posm := 2\<rparr>,
          (mk_line 100 2 True)\<lparr>order := 1, flag := False\<rparr>,
          mk_line 100 (- 1) True]"
  by code_simp

theorem fit_lines_policy_witness:
  "list_all (\<lambda>l. 0 \<le> width l) lines_fit \<and>
   fit_lines mean_lib obs_fit lines_fit =
     Inr [(mk_line 100 (12 / 5) True)\<lparr>posm := 2\<rparr>,
          (mk_line 100 2 True)\<lparr>order := 1, flag := False\<rparr>,
          mk_line 100 (- 1) True] \<and>
   outside obs_fit (lines_fit ! 2) \<and>
   \<not> outside obs_fit (lines_fit ! 1) \<and>
   list_all snd (snd (snd (section_of obs_fit (lines_fit ! 1)))) \<and>
   \<not> outside obs_fit (lines_fit ! 0) \<and>
   gaussfit2 mean_lib (zip (map real_of_int [0..4]) (map snd (obs_fit ! 0))) (obs_fit ! 0)
     = Inr [5, 2, 1, 0]"
proof -
  let ?res = "[(mk_line 100 (12 / 5) True)\<lparr>posm := 2\<rparr>,
          (mk_line 100 2 True)\<lparr>order := 1, flag := False\<rparr>,
          mk_line 100 (- 1) True]"
  have w: "\<forall>l \<in> set lines_fit. 0 \<le> width l" by (simp add: lines_fit_def mk_line_def)
  from fit_lines_policy [OF w, of mean_lib obs_fit] fit_lines_run
  have t: "\<forall>i < length lines_fit.
       (outside obs_fit (lines_fit ! i) \<longrightarrow> ?res ! i = lines_fit ! i) \<and>
       (\<not> outside obs_fit (lines_fit ! i) \<longrightarrow>
          (\<exists>low high sect.
             section_of obs_fit (lines_fit ! i) = (low, high, sect) \<and>
             (list_all snd sect \<longrightarrow> ?res ! i = (lines_fit ! i)\<lparr>flag := False\<rparr>) \<and>
             (case gaussfit2 mean_lib (zip (map real_of_int [low..high - 1]) (map snd sect)) sect of
                Inl e \<Rightarrow> ?res ! i = (lines_fit ! i)\<lparr>flag := False\<rparr>
              | Inr coef \<Rightarrow>
                  (case py_index coef 1 of
                     Inl e \<Rightarrow> ?res ! i = (lines_fit ! i)\<lparr>flag := False\<rparr>
                   | Inr c \<Rightarrow> ?res ! i = (lines_fit ! i)\<lparr>posm := c\<rparr>))))"
    by auto
  have o2: "outside obs_fit (lines_fit ! 2)" by code_simp
  have "2 < length lines_fit" by (simp add: lines_fit_def)
  with t o2 have "?res ! 2 = lines_fit ! 2" by blast
  have o1: "\<not> outside obs_fit (lines_fit ! 1)" by code_simp
  have m1: "list_all snd (snd (snd (section_of obs_fit (lines_fit ! 1))))" by code_simp
  have o0: "\<not> outside obs_fit (lines_fit ! 0)" by code_simp
  have g: "gaussfit2 mean_lib (zip (map real_of_int [0..4]) (map snd (obs_fit ! 0))) (obs_fit ! 0)
     = Inr [5, 2, 1, 0]" by code_simp
  have la: "list_all (\<lambda>l. 0 \<le> width l) lines_fit" using w by (simp add: list_all_iff)
  from la fit_lines_run o2 o1 m1 o0 g \<open>?res ! 2 = lines_fit ! 2\<close> show ?thesis by blast
qed

section \<open>Properties of the alignment\<close>









end
